theory Spec2Isabelle
  imports Main
begin

section \<open>JavaScript values\<close>

text \<open>
  The proxy template is JavaScript. Values are modelled by a datatype: the primitives, function
  objects and plain objects. A function value is either a function expression of the template
  (\<open>Plain\<close>, identified by a name) or the result of \<open>f.bind(receiver)\<close>; receivers are
  object identities. Both objects and functions carry their enumerable properties as an
  association list; an object also carries the names of the constructors on its prototype
  chain, which is what \<open>instanceof\<close> inspects.
\<close>

type_synonym objid = nat

datatype func = Plain string | Bound func objid

datatype jsval =
    JUndefined
  | JNull
  | JBool bool
  | JNum int
  | JStr string
  | JFun func "(string \<times> jsval) list"
  | JObj "string list" "(string \<times> jsval) list"

fun typeof :: "jsval \<Rightarrow> string" where
  "typeof JUndefined = ''undefined''"
| "typeof JNull = ''object''"
| "typeof (JBool b) = ''boolean''"
| "typeof (JNum n) = ''number''"
| "typeof (JStr s) = ''string''"
| "typeof (JFun f ps) = ''function''"
| "typeof (JObj c ps) = ''object''"

fun truthy :: "jsval \<Rightarrow> bool" where
  "truthy JUndefined = False"
| "truthy JNull = False"
| "truthy (JBool b) = b"
| "truthy (JNum n) = (n \<noteq> 0)"
| "truthy (JStr s) = (s \<noteq> [])"
| "truthy (JFun f ps) = True"
| "truthy (JObj c ps) = True"

definition js_not :: "jsval \<Rightarrow> jsval" where
  "js_not v = JBool (\<not> truthy v)"

text \<open>\<open>v instanceof C\<close>: a primitive is an instance of nothing.\<close>

fun instanceof :: "jsval \<Rightarrow> string \<Rightarrow> bool" where
  "instanceof (JObj chain ps) C = (C \<in> set chain)"
| "instanceof (JFun f ps) C = (C \<in> set [''Function'', ''Object''])"
| "instanceof v C = False"

fun props_of :: "jsval \<Rightarrow> (string \<times> jsval) list" where
  "props_of (JObj c ps) = ps"
| "props_of (JFun f ps) = ps"
| "props_of v = []"

text \<open>Reading a property that is absent gives \<open>undefined\<close>.\<close>

definition get_prop :: "jsval \<Rightarrow> string \<Rightarrow> jsval" where
  "get_prop v k = (case map_of (props_of v) k of Some x \<Rightarrow> x | None \<Rightarrow> JUndefined)"

section \<open>The metadata read by the template\<close>

record methodDef =
  params :: "string list"
  returns :: jsval
  async :: jsval

record typeDef =
  type_name :: string
  enum :: bool
  struct :: "(string \<times> int) list"

text \<open>
  The maps of the metadata are association lists in the order of \<open>Object.keys\<close>.
\<close>

record metadata =
  types :: "(string \<times> typeDef) list"
  methods :: "(string \<times> methodDef) list"
  events :: "(string \<times> jsval) list"

section \<open>Strings\<close>

text \<open>\<open>s.lastIndexOf(c)\<close> is \<open>-1\<close> when \<open>c\<close> does not occur in \<open>s\<close>.\<close>

fun lastIndexOf :: "string \<Rightarrow> char \<Rightarrow> int" where
  "lastIndexOf [] c = -1"
| "lastIndexOf (x # xs) c =
     (let r = lastIndexOf xs c
      in if r \<noteq> -1 then r + 1 else if x = c then 0 else -1)"

definition substr :: "string \<Rightarrow> int \<Rightarrow> int \<Rightarrow> string" where
  "substr s start len = take (nat len) (drop (nat start) s)"

section \<open>Namespace stubs\<close>

text \<open>
  \<open>var stubs = {}\<close> is an object literal, so \<open>stubs[ns]\<close> also finds the members every object
  inherits from \<open>Object.prototype\<close>, all of them truthy.
\<close>

definition Object_prototype_names :: "string list" where
  "Object_prototype_names =
     [''constructor'', ''toString'', ''toLocaleString'', ''valueOf'', ''hasOwnProperty'',
      ''isPrototypeOf'', ''propertyIsEnumerable'', ''__proto__'', ''__defineGetter__'',
      ''__defineSetter__'', ''__lookupGetter__'', ''__lookupSetter__'']"

text \<open>
  The state of \<open>stubNamespace\<close> is the list of keys it has stored in \<open>stubs\<close>, in the order
  of insertion. Every insertion writes the line
  \<open><localName>.prototype.<ns> = {_ns:true};\<close> at the same moment, so this list is also the
  sequence of container lines of the emitted text.
\<close>

definition stubbed :: "string list \<Rightarrow> string \<Rightarrow> bool" where
  "stubbed stubs ns = (ns \<in> set stubs \<or> ns \<in> set Object_prototype_names)"

lemma lastIndexOf_lt: "lastIndexOf s c < int (length s)"
  by (induction s) (auto simp: Let_def)

lemma lastIndexOf_ge: "- 1 \<le> lastIndexOf s c"
  by (induction s) (auto simp: Let_def)

function stubNamespace :: "string \<Rightarrow> string list \<Rightarrow> string list" where
  "stubNamespace ns stubs =
     (let dot = lastIndexOf ns CHR ''.'';
          stubs1 = (if dot \<noteq> -1 then stubNamespace (substr ns 0 dot) stubs else stubs)
      in if stubbed stubs1 ns then stubs1 else stubs1 @ [ns])"
  by pat_completeness auto
termination
proof (relation "measure (\<lambda>(ns, stubs). length ns)")
  show "wf (measure (\<lambda>(ns, stubs). length ns))" by simp
next
  fix ns :: string and stubs :: "string list" and x :: int
  assume "x = lastIndexOf ns CHR ''.''" and "x \<noteq> - 1"
  moreover have "lastIndexOf ns CHR ''.'' < int (length ns)" by (rule lastIndexOf_lt)
  ultimately show "((substr ns 0 x, stubs), (ns, stubs)) \<in> measure (\<lambda>(ns, stubs). length ns)"
    using lastIndexOf_ge [of ns "CHR ''.''"] by (simp add: substr_def)
qed

declare stubNamespace.simps [simp del]

text \<open>Lines 115-121: the namespaces of the method names, each once, in order of first use.\<close>

definition collect_namespace :: "string list \<Rightarrow> string \<Rightarrow> string list" where
  "collect_namespace namespaces methodName =
     (let dot = lastIndexOf methodName CHR ''.''
      in if dot = -1 then namespaces
         else (let namespace = substr methodName 0 dot
               in if namespace \<notin> set namespaces then namespaces @ [namespace] else namespaces))"

definition namespaces_of :: "metadata \<Rightarrow> string list" where
  "namespaces_of md = foldl collect_namespace [] (map fst (methods md))"

definition generateNamespaceStubs :: "metadata \<Rightarrow> string list" where
  "generateNamespaceStubs md = foldl (\<lambda>stubs ns. stubNamespace ns stubs) [] (namespaces_of md)"

subsection \<open>Namespace paths implied by a name\<close>

text \<open>
  The paths a dotted name implies, in the words of the specification: strip the last dot
  segment, repeatedly. \<open>parent\<close> is one such step.
\<close>

definition has_dot :: "string \<Rightarrow> bool" where
  "has_dot s = (lastIndexOf s CHR ''.'' \<noteq> -1)"

definition parent :: "string \<Rightarrow> string" where
  "parent s = substr s 0 (lastIndexOf s CHR ''.'')"

lemma length_parent: "has_dot s \<Longrightarrow> length (parent s) < length s"
  using lastIndexOf_lt [of s "CHR ''.''"] lastIndexOf_ge [of s "CHR ''.''"]
  by (simp add: has_dot_def parent_def substr_def)

function namespace_paths :: "string \<Rightarrow> string list" where
  "namespace_paths name = (if has_dot name then parent name # namespace_paths (parent name) else [])"
  by pat_completeness auto
termination
  by (relation "measure length") (simp_all add: length_parent)

declare namespace_paths.simps [simp del]


subsection \<open>What \<open>stubNamespace\<close> emits\<close>

lemma stubNamespace_unfold:
  "stubNamespace ns stubs =
     (let stubs1 = (if has_dot ns then stubNamespace (parent ns) stubs else stubs)
      in if stubbed stubs1 ns then stubs1 else stubs1 @ [ns])"
  by (subst stubNamespace.simps) (simp add: has_dot_def parent_def Let_def)

definition reserved_free :: "string \<Rightarrow> bool" where
  "reserved_free ns = (\<forall>p \<in> set (ns # namespace_paths ns). p \<notin> set Object_prototype_names)"

lemma reserved_free_parent: "reserved_free ns \<Longrightarrow> has_dot ns \<Longrightarrow> reserved_free (parent ns)"
  unfolding reserved_free_def by (subst (asm) namespace_paths.simps) simp

lemma stubNamespace_set:
  "reserved_free ns \<Longrightarrow> set (stubNamespace ns stubs) = set stubs \<union> set (ns # namespace_paths ns)"
proof (induction ns stubs rule: stubNamespace.induct)
  case (1 ns stubs)
  have free: "ns \<notin> set Object_prototype_names"
    using "1.prems" by (simp add: reserved_free_def)
  show ?case
  proof (cases "has_dot ns")
    case True
    have ih: "set (stubNamespace (parent ns) stubs) = set stubs \<union> set (parent ns # namespace_paths (parent ns))"
      using "1.IH" [OF refl] True reserved_free_parent [OF "1.prems" True]
      by (simp add: has_dot_def parent_def)
    have np: "namespace_paths ns = parent ns # namespace_paths (parent ns)"
      using True by (subst namespace_paths.simps) simp
    have "stubNamespace ns stubs =
        (if stubbed (stubNamespace (parent ns) stubs) ns then stubNamespace (parent ns) stubs
         else stubNamespace (parent ns) stubs @ [ns])"
      using True by (subst stubNamespace_unfold) (simp only: Let_def if_True)
    then have "set (stubNamespace ns stubs) = insert ns (set (stubNamespace (parent ns) stubs))"
      using free unfolding stubbed_def by (simp add: insert_absorb)
    then show ?thesis
      unfolding ih np by auto
  next
    case False
    have np: "namespace_paths ns = []"
      using False by (subst namespace_paths.simps) simp
    have "stubNamespace ns stubs = (if stubbed stubs ns then stubs else stubs @ [ns])"
      using False by (subst stubNamespace_unfold) (simp only: Let_def if_False)
    then have "set (stubNamespace ns stubs) = insert ns (set stubs)"
      using free unfolding stubbed_def by (simp add: insert_absorb)
    then show ?thesis
      unfolding np by auto
  qed
qed


definition parents_first :: "string list \<Rightarrow> bool" where
  "parents_first stubs =
     (\<forall>i < length stubs. has_dot (stubs ! i) \<longrightarrow> (\<exists>j < i. stubs ! j = parent (stubs ! i)))"

lemma parents_first_snoc:
  assumes "parents_first stubs" and "has_dot p \<Longrightarrow> parent p \<in> set stubs"
  shows "parents_first (stubs @ [p])"
  unfolding parents_first_def
proof (intro allI impI)
  fix i
  assume i: "i < length (stubs @ [p])" and d: "has_dot ((stubs @ [p]) ! i)"
  show "\<exists>j < i. (stubs @ [p]) ! j = parent ((stubs @ [p]) ! i)"
  proof (cases "i < length stubs")
    case True
    then have at_i: "(stubs @ [p]) ! i = stubs ! i" by (simp add: nth_append)
    with d have "has_dot (stubs ! i)" by simp
    with assms(1) True obtain j where j: "j < i" "stubs ! j = parent (stubs ! i)"
      unfolding parents_first_def by blast
    from j(1) True have "(stubs @ [p]) ! j = stubs ! j" by (simp add: nth_append)
    with j at_i have "j < i \<and> (stubs @ [p]) ! j = parent ((stubs @ [p]) ! i)" by simp
    then show ?thesis by (rule exI)
  next
    case False
    with i have eq: "i = length stubs" by simp
    then have at_i: "(stubs @ [p]) ! i = p" by simp
    with d have "has_dot p" by simp
    then have "parent p \<in> set stubs" by (rule assms(2))
    then obtain j where j: "j < length stubs" "stubs ! j = parent p"
      unfolding in_set_conv_nth by blast
    from j(1) have "(stubs @ [p]) ! j = stubs ! j" by (simp add: nth_append)
    with j eq at_i have "j < i \<and> (stubs @ [p]) ! j = parent ((stubs @ [p]) ! i)" by simp
    then show ?thesis by (rule exI)
  qed
qed

lemma stubNamespace_self: "reserved_free ns \<Longrightarrow> ns \<in> set (stubNamespace ns stubs)"
  by (simp add: stubNamespace_set)

lemma stubNamespace_invariant:
  "reserved_free ns \<Longrightarrow> parents_first stubs \<Longrightarrow> distinct stubs \<Longrightarrow>
     parents_first (stubNamespace ns stubs) \<and> distinct (stubNamespace ns stubs)"
proof (induction ns stubs rule: stubNamespace.induct)
  case (1 ns stubs)
  define stubs1 where "stubs1 = (if has_dot ns then stubNamespace (parent ns) stubs else stubs)"
  have step: "stubNamespace ns stubs = (if stubbed stubs1 ns then stubs1 else stubs1 @ [ns])"
    unfolding stubs1_def by (subst stubNamespace_unfold) (simp only: Let_def)
  have inv1: "parents_first stubs1 \<and> distinct stubs1"
  proof (cases "has_dot ns")
    case True
    then show ?thesis
      using "1.IH" [OF refl] reserved_free_parent [OF "1.prems"(1) True] "1.prems"(2,3)
      by (simp add: stubs1_def has_dot_def parent_def)
  next
    case False
    then show ?thesis using "1.prems"(2,3) by (simp add: stubs1_def)
  qed
  have par: "has_dot ns \<Longrightarrow> parent ns \<in> set stubs1"
    using stubNamespace_self [OF reserved_free_parent [OF "1.prems"(1)]]
    by (simp add: stubs1_def)
  show ?case
  proof (cases "stubbed stubs1 ns")
    case True
    then show ?thesis using step inv1 by simp
  next
    case False
    then have "ns \<notin> set stubs1" by (simp add: stubbed_def)
    then show ?thesis
      using step False inv1 parents_first_snoc [of stubs1 ns] par by simp
  qed
qed

lemma foldl_stubNamespace:
  "\<forall>ns \<in> set nss. reserved_free ns \<Longrightarrow> parents_first stubs \<Longrightarrow> distinct stubs \<Longrightarrow>
     parents_first (foldl (\<lambda>stubs ns. stubNamespace ns stubs) stubs nss) \<and>
     distinct (foldl (\<lambda>stubs ns. stubNamespace ns stubs) stubs nss) \<and>
     set (foldl (\<lambda>stubs ns. stubNamespace ns stubs) stubs nss) =
       set stubs \<union> (\<Union>ns \<in> set nss. set (ns # namespace_paths ns))"
proof (induction nss arbitrary: stubs)
  case Nil
  then show ?case by simp
next
  case (Cons ns nss)
  have rf: "reserved_free ns" and rest: "\<forall>ns \<in> set nss. reserved_free ns"
    using Cons.prems(1) by simp_all
  have inv: "parents_first (stubNamespace ns stubs) \<and> distinct (stubNamespace ns stubs)"
    using stubNamespace_invariant [OF rf Cons.prems(2,3)] .
  have "set (stubNamespace ns stubs) = set stubs \<union> set (ns # namespace_paths ns)"
    by (rule stubNamespace_set [OF rf])
  with Cons.IH [OF rest, of "stubNamespace ns stubs"] inv show ?case
    by (simp add: Un_assoc)
qed

lemma set_foldl_collect_namespace:
  "set (foldl collect_namespace acc names) = set acc \<union> {parent m | m. m \<in> set names \<and> has_dot m}"
proof (induction names arbitrary: acc)
  case Nil
  then show ?case by simp
next
  case (Cons m names)
  have "set (collect_namespace acc m) = (if has_dot m then insert (parent m) (set acc) else set acc)"
    by (auto simp: collect_namespace_def Let_def has_dot_def parent_def)
  with Cons.IH [of "collect_namespace acc m"] show ?case by auto
qed

lemma paths_of_parent:
  "has_dot m \<Longrightarrow> parent m # namespace_paths (parent m) = namespace_paths m"
  by (subst (2) namespace_paths.simps) simp

subsection \<open>Evaluation rules for concrete names\<close>

lemma namespace_paths_dot:
  "has_dot name \<Longrightarrow> namespace_paths name = parent name # namespace_paths (parent name)"
  by (subst namespace_paths.simps) simp

lemma namespace_paths_root: "\<not> has_dot name \<Longrightarrow> namespace_paths name = []"
  by (subst namespace_paths.simps) simp

lemma stubNamespace_dot:
  "has_dot ns \<Longrightarrow> stubNamespace ns stubs =
     (let stubs1 = stubNamespace (parent ns) stubs in if stubbed stubs1 ns then stubs1 else stubs1 @ [ns])"
  by (subst stubNamespace_unfold) (simp only: if_True)

lemma stubNamespace_root:
  "\<not> has_dot ns \<Longrightarrow> stubNamespace ns stubs = (if stubbed stubs ns then stubs else stubs @ [ns])"
  by (subst stubNamespace_unfold) (simp only: if_False Let_def)

lemmas ns_eval = namespace_paths_dot namespace_paths_root has_dot_def parent_def substr_def
  stubNamespace_dot stubNamespace_root stubbed_def Object_prototype_names_def Let_def
  generateNamespaceStubs_def namespaces_of_def collect_namespace_def

subsection \<open>The implied paths are the dot prefixes\<close>

lemma lastIndexOf_none: "(lastIndexOf s c = -1) = (c \<notin> set s)"
proof (induction s)
  case Nil
  then show ?case by simp
next
  case (Cons x xs)
  have "- 1 \<le> lastIndexOf xs c" by (rule lastIndexOf_ge)
  then have "lastIndexOf xs c + 1 \<noteq> - 1" by simp
  with Cons show ?case by (auto simp: Let_def)
qed

lemma lastIndexOf_split:
  "lastIndexOf s c \<noteq> -1 \<Longrightarrow>
     \<exists>suffix. s = take (nat (lastIndexOf s c)) s @ c # suffix \<and> c \<notin> set suffix"
proof (induction s)
  case Nil
  then show ?case by simp
next
  case (Cons x xs)
  show ?case
  proof (cases "lastIndexOf xs c = -1")
    case True
    with Cons.prems have "x = c" by (simp add: Let_def split: if_splits)
    moreover from True have "c \<notin> set xs" by (simp add: lastIndexOf_none)
    ultimately show ?thesis using True by (simp add: Let_def)
  next
    case False
    then obtain suffix where suf: "xs = take (nat (lastIndexOf xs c)) xs @ c # suffix" "c \<notin> set suffix"
      using Cons.IH by blast
    have ge: "0 \<le> lastIndexOf xs c"
      using lastIndexOf_ge [of xs c] False by simp
    then have n: "nat (lastIndexOf xs c + 1) = Suc (nat (lastIndexOf xs c))" by simp
    have "x # xs = take (nat (lastIndexOf (x # xs) c)) (x # xs) @ c # suffix"
      using False suf(1) n by (simp add: Let_def)
    with suf(2) show ?thesis by blast
  qed
qed

lemma parent_split:
  "has_dot s \<Longrightarrow> \<exists>suffix. s = parent s @ CHR ''.'' # suffix \<and> CHR ''.'' \<notin> set suffix"
  using lastIndexOf_split [of s "CHR ''.''"] by (simp add: has_dot_def parent_def substr_def)

lemma has_dot_iff: "has_dot s = (CHR ''.'' \<in> set s)"
  by (simp add: has_dot_def lastIndexOf_none)

text \<open>The implied paths are the proper prefixes of the name that end just before a dot.\<close>

lemma namespace_paths_prefixes:
  "set (namespace_paths name) = {p. \<exists>rest. name = p @ CHR ''.'' # rest}"
proof (induction name rule: namespace_paths.induct)
  case (1 name)
  show ?case
  proof (cases "has_dot name")
    case False
    then have "CHR ''.'' \<notin> set name" by (simp add: has_dot_iff)
    then have "{p. \<exists>rest. name = p @ CHR ''.'' # rest} = {}" by auto
    with False show ?thesis by (simp add: namespace_paths_root)
  next
    case True
    define P where "P = parent name"
    obtain suffix where suf: "name = P @ CHR ''.'' # suffix" "CHR ''.'' \<notin> set suffix"
      using parent_split [OF True] unfolding P_def by blast
    have ih: "set (namespace_paths P) = {p. \<exists>rest. P = p @ CHR ''.'' # rest}"
      using "1.IH" [OF True] unfolding P_def .
    have "{p. \<exists>rest. name = p @ CHR ''.'' # rest} =
          insert P {p. \<exists>rest. P = p @ CHR ''.'' # rest}"
    proof (rule set_eqI, rule iffI)
      fix p assume "p \<in> {p. \<exists>rest. name = p @ CHR ''.'' # rest}"
      then obtain rest where "name = p @ CHR ''.'' # rest" by blast
      then have eq: "p @ CHR ''.'' # rest = P @ CHR ''.'' # suffix"
        unfolding suf(1) by (rule sym)
      then obtain us where us:
          "(p = P @ us \<and> us @ CHR ''.'' # rest = CHR ''.'' # suffix)
           \<or> (p @ us = P \<and> CHR ''.'' # rest = us @ CHR ''.'' # suffix)"
        unfolding append_eq_append_conv2 by blast
      show "p \<in> insert P {p. \<exists>rest. P = p @ CHR ''.'' # rest}"
      proof (cases us)
        case Nil
        with us show ?thesis by auto
      next
        case (Cons u us')
        from us show ?thesis
        proof
          assume "p = P @ us \<and> us @ CHR ''.'' # rest = CHR ''.'' # suffix"
          with Cons have "suffix = us' @ CHR ''.'' # rest" by simp
          with suf(2) show ?thesis by simp
        next
          assume a: "p @ us = P \<and> CHR ''.'' # rest = us @ CHR ''.'' # suffix"
          with Cons have "u = CHR ''.''" by simp
          with a Cons have "P = p @ CHR ''.'' # us'" by auto
          then show ?thesis by blast
        qed
      qed
    next
      fix p assume "p \<in> insert P {p. \<exists>rest. P = p @ CHR ''.'' # rest}"
      then show "p \<in> {p. \<exists>rest. name = p @ CHR ''.'' # rest}"
      proof
        assume "p = P"
        with suf(1) show ?thesis by blast
      next
        assume "p \<in> {p. \<exists>rest. P = p @ CHR ''.'' # rest}"
        then obtain rest where "P = p @ CHR ''.'' # rest" by blast
        with suf(1) have "name = p @ CHR ''.'' # (rest @ CHR ''.'' # suffix)" by simp
        then show ?thesis by blast
      qed
    qed
    with ih True show ?thesis by (simp add: namespace_paths_dot P_def)
  qed
qed

subsection \<open>The emitted containers\<close>

text \<open>
  Claim C3, as the code has it. The containers are computed from the method names alone
  (lines 116-121 read \<open>metadata.methods\<close>; the events are never consulted). Provided no
  implied path is the name of a member that every object inherits from \<open>Object.prototype\<close>,
  the emitted containers are exactly the namespace paths implied by the registered method
  names, each emitted once, and every path that has a parent is emitted strictly after its
  parent.
\<close>

theorem namespace_stubs_of_methods:
  assumes "\<forall>m \<in> set (map fst (methods md)). \<forall>p \<in> set (namespace_paths m). p \<notin> set Object_prototype_names"
  shows "set (generateNamespaceStubs md) = (\<Union>m \<in> set (map fst (methods md)). set (namespace_paths m))
       \<and> distinct (generateNamespaceStubs md)
       \<and> (\<forall>i < length (generateNamespaceStubs md). has_dot (generateNamespaceStubs md ! i) \<longrightarrow>
             (\<exists>j < i. generateNamespaceStubs md ! j = parent (generateNamespaceStubs md ! i)))"
proof -
  let ?names = "map fst (methods md)"
  have nss: "set (namespaces_of md) = {parent m | m. m \<in> set ?names \<and> has_dot m}"
    by (simp add: namespaces_of_def set_foldl_collect_namespace)
  have rf: "\<forall>ns \<in> set (namespaces_of md). reserved_free ns"
  proof
    fix ns assume "ns \<in> set (namespaces_of md)"
    then obtain m where m: "m \<in> set ?names" "has_dot m" "ns = parent m"
      using nss by auto
    then show "reserved_free ns"
      using assms paths_of_parent [OF m(2)] unfolding reserved_free_def by metis
  qed
  have pf0: "parents_first []" by (simp add: parents_first_def)
  have main: "parents_first (generateNamespaceStubs md) \<and> distinct (generateNamespaceStubs md) \<and>
      set (generateNamespaceStubs md) = (\<Union>ns \<in> set (namespaces_of md). set (ns # namespace_paths ns))"
    using foldl_stubNamespace [OF rf pf0] by (simp add: generateNamespaceStubs_def)
  have "(\<Union>ns \<in> set (namespaces_of md). set (ns # namespace_paths ns)) =
        (\<Union>m \<in> set ?names. set (namespace_paths m))"
  proof (rule set_eqI, rule iffI)
    fix p assume "p \<in> (\<Union>ns \<in> set (namespaces_of md). set (ns # namespace_paths ns))"
    then obtain m where m: "m \<in> set ?names" "has_dot m" "p \<in> set (parent m # namespace_paths (parent m))"
      using nss by auto
    then have "p \<in> set (namespace_paths m)" using paths_of_parent [OF m(2)] by simp
    with m(1) show "p \<in> (\<Union>m \<in> set ?names. set (namespace_paths m))" by blast
  next
    fix p assume "p \<in> (\<Union>m \<in> set ?names. set (namespace_paths m))"
    then obtain m where m: "m \<in> set ?names" "p \<in> set (namespace_paths m)" by blast
    have d: "has_dot m"
    proof (rule ccontr)
      assume "\<not> has_dot m"
      then have "namespace_paths m = []" by (subst namespace_paths.simps) simp
      with m(2) show False by simp
    qed
    then have "p \<in> set (parent m # namespace_paths (parent m))"
      using m(2) paths_of_parent [OF d] by simp
    moreover have "parent m \<in> set (namespaces_of md)" using nss m(1) d by blast
    ultimately show "p \<in> (\<Union>ns \<in> set (namespaces_of md). set (ns # namespace_paths ns))" by blast
  qed
  with main show ?thesis by (simp add: parents_first_def)
qed

theorem namespace_stubs_of_methods_witness:
  "set (generateNamespaceStubs
         \<lparr>types = [],
          methods = [(''vray.start'', \<lparr>params = [], returns = JUndefined, async = JBool True\<rparr>),
                     (''vray.scene.load'', \<lparr>params = [''url''], returns = JStr ''int'', async = JUndefined\<rparr>),
                     (''sum'', \<lparr>params = [''a'', ''b''], returns = JStr ''int'', async = JUndefined\<rparr>)],
          events = []\<rparr>) = {''vray'', ''vray.scene''}
   \<and> generateNamespaceStubs
         \<lparr>types = [],
          methods = [(''vray.start'', \<lparr>params = [], returns = JUndefined, async = JBool True\<rparr>),
                     (''vray.scene.load'', \<lparr>params = [''url''], returns = JStr ''int'', async = JUndefined\<rparr>),
                     (''sum'', \<lparr>params = [''a'', ''b''], returns = JStr ''int'', async = JUndefined\<rparr>)],
          events = []\<rparr> = [''vray'', ''vray.scene'']"
proof -
  let ?md = "\<lparr>types = [],
          methods = [(''vray.start'', \<lparr>params = [], returns = JUndefined, async = JBool True\<rparr>),
                     (''vray.scene.load'', \<lparr>params = [''url''], returns = JStr ''int'', async = JUndefined\<rparr>),
                     (''sum'', \<lparr>params = [''a'', ''b''], returns = JStr ''int'', async = JUndefined\<rparr>)],
          events = []\<rparr>"
  have p1: "namespace_paths ''vray.start'' = [''vray'']" by (simp add: ns_eval)
  have p2: "namespace_paths ''vray.scene.load'' = [''vray.scene'', ''vray'']" by (simp add: ns_eval)
  have p3: "namespace_paths ''sum'' = []" by (simp add: ns_eval)
  have h: "\<forall>m \<in> set (map fst (methods ?md)). \<forall>p \<in> set (namespace_paths m). p \<notin> set Object_prototype_names"
    by (simp add: p1 p2 p3 Object_prototype_names_def)
  have "set (generateNamespaceStubs ?md) = (\<Union>m \<in> set (map fst (methods ?md)). set (namespace_paths m))"
    using namespace_stubs_of_methods [OF h] by (rule conjunct1)
  then have s: "set (generateNamespaceStubs ?md) = {''vray'', ''vray.scene''}"
    by (simp add: p1 p2 p3 insert_commute)
  have "generateNamespaceStubs ?md = [''vray'', ''vray.scene'']" by (simp add: ns_eval)
  with s show ?thesis by simp
qed

text \<open>
  The claim as stated also asks for the paths implied by event names. The event
  \<open>render.progress\<close> implies the path \<open>render\<close>, and no container is emitted for it.
\<close>

theorem namespace_stubs_ignore_events:
  "namespace_paths ''render.progress'' = [''render'']
   \<and> generateNamespaceStubs
         \<lparr>types = [],
          methods = [(''vray.start'', \<lparr>params = [], returns = JUndefined, async = JBool True\<rparr>)],
          events = [(''render.progress'', JStr ''int'')]\<rparr> = [''vray'']"
  by (simp add: ns_eval)

section \<open>Enum accessors\<close>

text \<open>
  For every type with \<open>type.enum\<close> set, \<open>generateTypes\<close> (lines 82-98) emits a function whose
  body is a \<open>switch\<close> over literals, then one assignment \<open><localName>.<type>.<key> = <value>\<close>
  per member, then \<open>Object.freeze\<close>. The cases of the switch are, in this order, one
  \<open>case "<key>": return <value>\<close> per member and one \<open>case <value>: return "<key>"\<close> per
  member.
\<close>

datatype literal = LStr string | LNum int

fun literal_value :: "literal \<Rightarrow> jsval" where
  "literal_value (LStr s) = JStr s"
| "literal_value (LNum n) = JNum n"

text \<open>\<open>switch\<close> compares with \<open>===\<close>: a string equals only the same string, a number only the same number.\<close>

fun strict_eq_literal :: "jsval \<Rightarrow> literal \<Rightarrow> bool" where
  "strict_eq_literal (JStr s) (LStr t) = (s = t)"
| "strict_eq_literal (JNum m) (LNum n) = (m = n)"
| "strict_eq_literal v l = False"

text \<open>Every case returns, so the first matching case decides; with no match the function returns \<open>undefined\<close>.\<close>

fun switch_return :: "jsval \<Rightarrow> (literal \<times> literal) list \<Rightarrow> jsval" where
  "switch_return val [] = JUndefined"
| "switch_return val ((c, r) # rest) =
     (if strict_eq_literal val c then literal_value r else switch_return val rest)"

definition enum_cases :: "(string \<times> int) list \<Rightarrow> (literal \<times> literal) list" where
  "enum_cases members =
     map (\<lambda>(key, v). (LStr key, LNum v)) members @ map (\<lambda>(key, v). (LNum v, LStr key)) members"

text \<open>
  The accessor is a function object. A function object is born with own properties that are
  not writable: \<open>length\<close> and \<open>name\<close> (and, in V8, \<open>arguments\<close> and \<open>caller\<close>). Each own
  property is stored with its value and its writable flag.
\<close>

record funobj =
  body :: "(literal \<times> literal) list"
  own :: "(string \<times> jsval \<times> bool) list"
  extensible :: bool

definition function_expression :: "nat \<Rightarrow> (literal \<times> literal) list \<Rightarrow> funobj" where
  "function_expression arity cs =
     \<lparr>body = cs,
      own = [(''length'', JNum (int arity), False), (''name'', JStr [], False),
             (''arguments'', JNull, False), (''caller'', JNull, False),
             (''prototype'', JObj [''Object''] [], True)],
      extensible = True\<rparr>"

fun put :: "'k \<Rightarrow> 'v \<Rightarrow> ('k \<times> 'v) list \<Rightarrow> ('k \<times> 'v) list" where
  "put k v [] = [(k, v)]"
| "put k v ((k', v') # ps) = (if k = k' then (k, v) # ps else (k', v') # put k v ps)"

text \<open>
  \<open>f.key = v\<close> in non-strict code: an assignment to a property that is not writable, or a new
  property of an object that is not extensible, is silently ignored.
\<close>

definition assign_prop :: "funobj \<Rightarrow> string \<Rightarrow> jsval \<Rightarrow> funobj" where
  "assign_prop f key v =
     (case map_of (own f) key of
        Some (old, w) \<Rightarrow> if w then f\<lparr>own := put key (v, True) (own f)\<rparr> else f
      | None \<Rightarrow> if extensible f then f\<lparr>own := put key (v, True) (own f)\<rparr> else f)"

definition freeze :: "funobj \<Rightarrow> funobj" where
  "freeze f = f\<lparr>own := map (\<lambda>(k, v, w). (k, v, False)) (own f), extensible := False\<rparr>"

definition read_prop :: "funobj \<Rightarrow> string \<Rightarrow> jsval" where
  "read_prop f key = (case map_of (own f) key of Some (v, w) \<Rightarrow> v | None \<Rightarrow> JUndefined)"

definition call_accessor :: "funobj \<Rightarrow> jsval \<Rightarrow> jsval" where
  "call_accessor f val = switch_return val (body f)"

definition enumAccessor :: "typeDef \<Rightarrow> funobj" where
  "enumAccessor t =
     freeze (foldl (\<lambda>f (key, v). assign_prop f key (JNum v))
               (function_expression 1 (enum_cases (struct t))) (struct t))"

definition generateTypes :: "metadata \<Rightarrow> (string \<times> funobj) list" where
  "generateTypes md = map (\<lambda>t. (type_name t, enumAccessor t)) (filter enum (map snd (types md)))"


subsection \<open>Calling the accessor\<close>

lemma switch_label_cases:
  "switch_return (JStr l) (map (\<lambda>(key, v). (LStr key, LNum v)) ms @ rest) =
     (case map_of ms l of Some v \<Rightarrow> JNum v | None \<Rightarrow> switch_return (JStr l) rest)"
  by (induction ms) auto

lemma switch_label_cases_number:
  "switch_return (JNum n) (map (\<lambda>(key, v). (LStr key, LNum v)) ms @ rest) = switch_return (JNum n) rest"
  by (induction ms) auto

lemma switch_value_cases_string:
  "switch_return (JStr l) (map (\<lambda>(key, v). (LNum v, LStr key)) ms) = JUndefined"
  by (induction ms) auto

lemma switch_value_cases:
  "switch_return (JNum n) (map (\<lambda>(key, v). (LNum v, LStr key)) ms) =
     (case map_of (map (\<lambda>(key, v). (v, key)) ms) n of Some key \<Rightarrow> JStr key | None \<Rightarrow> JUndefined)"
  by (induction ms) auto

lemma body_assign_prop: "body (assign_prop f key v) = body f"
  by (simp add: assign_prop_def split: option.splits prod.splits)

lemma body_foldl_assign:
  "body (foldl (\<lambda>f (key, v). assign_prop f key (JNum v)) f ms) = body f"
  by (induction ms arbitrary: f) (auto simp: body_assign_prop)

lemma body_enumAccessor: "body (enumAccessor t) = enum_cases (struct t)"
  by (simp add: enumAccessor_def freeze_def body_foldl_assign function_expression_def)

lemma call_accessor_label:
  "call_accessor (enumAccessor t) (JStr l) =
     (case map_of (struct t) l of Some v \<Rightarrow> JNum v | None \<Rightarrow> JUndefined)"
  by (simp add: call_accessor_def body_enumAccessor enum_cases_def switch_label_cases
        switch_value_cases_string split: option.splits)

lemma call_accessor_value:
  "call_accessor (enumAccessor t) (JNum n) =
     (case map_of (map (\<lambda>(key, v). (v, key)) (struct t)) n of
        Some key \<Rightarrow> JStr key | None \<Rightarrow> JUndefined)"
  by (simp add: call_accessor_def body_enumAccessor enum_cases_def switch_label_cases_number
        switch_value_cases)

lemma enum_round_trip:
  assumes "distinct (map fst (struct t))" and "distinct (map snd (struct t))"
    and "(l, v) \<in> set (struct t)"
  shows "call_accessor (enumAccessor t) (JStr l) = JNum v
       \<and> call_accessor (enumAccessor t) (JNum v) = JStr l"
proof -
  have "map_of (struct t) l = Some v"
    using assms(1,3) by simp
  moreover have "distinct (map fst (map (\<lambda>(key, v). (v, key)) (struct t)))"
    using assms(2) by (simp add: comp_def case_prod_unfold)
  then have "map_of (map (\<lambda>(key, v). (v, key)) (struct t)) v = Some l"
    using assms(3) by (intro map_of_is_SomeI) auto
  ultimately show ?thesis
    by (simp add: call_accessor_label call_accessor_value)
qed

subsection \<open>The label properties\<close>

definition readonly_names :: "string list" where
  "readonly_names = [''length'', ''name'', ''arguments'', ''caller'']"

definition only_builtins_readonly :: "funobj \<Rightarrow> bool" where
  "only_builtins_readonly f =
     (extensible f \<and> (\<forall>k v. map_of (own f) k = Some (v, False) \<longrightarrow> k \<in> set readonly_names))"

lemma map_of_put: "map_of (put k v ps) = (map_of ps)(k \<mapsto> v)"
  by (induction ps) auto

lemma read_prop_assign:
  "only_builtins_readonly f \<Longrightarrow> l \<notin> set readonly_names \<Longrightarrow>
     read_prop (assign_prop f k v) l = (if l = k then v else read_prop f l)"
  by (auto simp: only_builtins_readonly_def assign_prop_def read_prop_def map_of_put
           split: option.splits)

lemma only_builtins_readonly_assign:
  "only_builtins_readonly f \<Longrightarrow> only_builtins_readonly (assign_prop f k v)"
  by (auto simp: only_builtins_readonly_def assign_prop_def map_of_put split: option.splits if_splits)

lemma read_prop_foldl_assign:
  "only_builtins_readonly f \<Longrightarrow> l \<notin> set readonly_names \<Longrightarrow>
     read_prop (foldl (\<lambda>f (key, v). assign_prop f key (JNum v)) f ms) l =
       (case map_of (rev ms) l of Some v \<Rightarrow> JNum v | None \<Rightarrow> read_prop f l)"
proof (induction ms arbitrary: f)
  case Nil
  then show ?case by simp
next
  case (Cons m ms)
  obtain k v where m: "m = (k, v)" by (cases m)
  have "read_prop (foldl (\<lambda>f (key, v). assign_prop f key (JNum v)) (assign_prop f k (JNum v)) ms) l =
       (case map_of (rev ms) l of Some v \<Rightarrow> JNum v | None \<Rightarrow> read_prop (assign_prop f k (JNum v)) l)"
    using Cons.IH [OF only_builtins_readonly_assign [OF Cons.prems(1)] Cons.prems(2)] .
  then show ?case
    using read_prop_assign [OF Cons.prems]
    by (simp add: m map_add_def split: option.splits)
qed

lemma map_of_frozen:
  "map_of (map (\<lambda>(k, v, w). (k, v, False)) ps) k = map_option (\<lambda>(v, w). (v, False)) (map_of ps k)"
  by (induction ps) auto

lemma read_prop_freeze: "read_prop (freeze f) k = read_prop f k"
  by (simp add: read_prop_def freeze_def map_of_frozen split: option.splits)

lemma only_builtins_readonly_function_expression:
  "only_builtins_readonly (function_expression n cs)"
  by (auto simp: only_builtins_readonly_def function_expression_def readonly_names_def
           split: if_splits)

lemma enum_label_property:
  assumes "distinct (map fst (struct t))" and "(l, v) \<in> set (struct t)"
    and "l \<notin> set readonly_names"
  shows "read_prop (enumAccessor t) l = JNum v"
proof -
  have "distinct (map fst (rev (struct t)))"
    using assms(1) by (simp add: rev_map [symmetric])
  then have "map_of (rev (struct t)) l = Some v"
    using assms(2) by simp
  then show ?thesis
    using read_prop_foldl_assign [OF only_builtins_readonly_function_expression assms(3)]
    by (simp add: enumAccessor_def read_prop_freeze)
qed

lemma enumAccessor_frozen:
  "\<not> extensible (enumAccessor t) \<and> assign_prop (enumAccessor t) k x = enumAccessor t"
  by (auto simp: enumAccessor_def freeze_def assign_prop_def map_of_frozen split: option.splits)

text \<open>
  Claim C1 at an enum with a member called \<open>length\<close>, declared as the list
  \<open>['length', 'width', 'height']\<close> (values by position). Calling the accessor converts
  both ways for every member, and the accessor is frozen, but the emitted assignment
  \<open><localName>.Dimension.length = 0\<close> targets the function's own read-only \<open>length\<close>
  and is ignored: \<open>Dimension.length\<close> stays the function's arity \<open>1\<close>.
\<close>

theorem enum_label_length_not_exposed:
  "read_prop (enumAccessor \<lparr>type_name = ''Dimension'', enum = True,
        struct = [(''length'', 0), (''width'', 1), (''height'', 2)]\<rparr>) ''length'' = JNum 1
   \<and> read_prop (enumAccessor \<lparr>type_name = ''Dimension'', enum = True,
        struct = [(''length'', 0), (''width'', 1), (''height'', 2)]\<rparr>) ''height'' = JNum 2
   \<and> call_accessor (enumAccessor \<lparr>type_name = ''Dimension'', enum = True,
        struct = [(''length'', 0), (''width'', 1), (''height'', 2)]\<rparr>) (JStr ''length'') = JNum 0
   \<and> call_accessor (enumAccessor \<lparr>type_name = ''Dimension'', enum = True,
        struct = [(''length'', 0), (''width'', 1), (''height'', 2)]\<rparr>) (JNum 0) = JStr ''length''"
  by (simp add: enumAccessor_def function_expression_def assign_prop_def freeze_def read_prop_def
        call_accessor_def enum_cases_def)


section \<open>The tunnel\<close>

text \<open>
  \<open>RpcTunnel\<close> is an external collaborator. The proxy only constructs it, registers one
  handler with \<open>on\<close>, hands it call objects with \<open>call\<close> and closes it; the model records
  these interactions. A call object has the properties \<open>method\<close>, \<open>params\<close> and \<open>transport\<close>,
  and \<open>expectReturn\<close> when the caller sets it; \<open>callback\<close> is the second argument of \<open>call\<close>
  (\<open>undefined\<close> when it is not passed).
\<close>

record rpcCall =
  rpc_method :: string
  rpc_params :: "jsval list"
  expectReturn :: "bool option"
  transport :: string
  callback :: jsval

record tunnel =
  tunnel_url :: jsval
  sslSettings :: jsval
  calls :: "rpcCall list"
  handlers :: "string list"
  closed :: bool

definition RpcTunnel :: "jsval \<Rightarrow> jsval \<Rightarrow> tunnel" where
  "RpcTunnel url ssl = \<lparr>tunnel_url = url, sslSettings = ssl, calls = [], handlers = [], closed = False\<rparr>"

definition rpc_call :: "tunnel \<Rightarrow> rpcCall \<Rightarrow> tunnel" where
  "rpc_call t c = t\<lparr>calls := calls t @ [c]\<rparr>"

definition rpc_on :: "tunnel \<Rightarrow> string \<Rightarrow> tunnel" where
  "rpc_on t ev = t\<lparr>handlers := handlers t @ [ev]\<rparr>"

definition rpc_close :: "tunnel \<Rightarrow> tunnel" where
  "rpc_close t = t\<lparr>closed := True\<rparr>"

section \<open>The proxy instance\<close>

text \<open>
  The state of one proxy object: its identity, the two properties the constructor sets, the
  listener lists of its event-emitter base, and its other enumerable properties (own and
  inherited: the methods and namespace containers of the prototype).
\<close>

record proxy =
  oid :: objid
  defaultTransport :: string
  rpc :: tunnel
  listeners_of :: "string \<Rightarrow> jsval list"
  members :: "(string \<times> jsval) list"

text \<open>A proxy as the constructor leaves it, for the examples.\<close>

definition fresh_Tester :: proxy where
  "fresh_Tester =
     \<lparr>oid = 7, defaultTransport = ''http'',
      rpc = rpc_on (RpcTunnel (JStr ''http://localhost:3000/endpoint/1.0'') JUndefined) ''event'',
      listeners_of = (\<lambda>type. []), members = []\<rparr>"

lemma calls_fresh_Tester: "calls (rpc fresh_Tester) = []"
  by (simp add: fresh_Tester_def rpc_on_def RpcTunnel_def)

section \<open>Errors\<close>

text \<open>
  What the emitted code throws: \<open>new Error(message)\<close> (line 19), and the \<open>TypeError\<close> the
  engine raises when code reads a member of \<open>undefined\<close> or \<open>null\<close>, or calls what is not a
  function.
\<close>

datatype error = Error string | TypeError

section \<open>Method stubs\<close>

text \<open>
  What the template fixes in the text of one stub (lines 127-141): the method name; the names
  of the declared parameters, which line 128 makes the formal parameters of the function;
  their number, which line 134 writes as a literal; and the \<open>expectReturn\<close> flag.
\<close>

record stubDef =
  stub_method :: string
  stub_formals :: "string list"
  stub_nparams :: nat
  stub_expectReturn :: bool

definition methodStub :: "string \<Rightarrow> methodDef \<Rightarrow> stubDef" where
  "methodStub methodName m =
     \<lparr>stub_method = methodName, stub_formals = params m, stub_nparams = length (params m),
      stub_expectReturn = (truthy (returns m) \<or> truthy (async m))\<rparr>"

definition generateMethodStubs :: "metadata \<Rightarrow> stubDef list" where
  "generateMethodStubs md = map (\<lambda>(methodName, m). methodStub methodName m) (methods md)"

subsection \<open>The scope of a stub\<close>

text \<open>
  The stub is non-strict code. Its body names three things it does not declare: \<open>arguments\<close>,
  \<open>Array\<close> and \<open>Math\<close>. A formal parameter of one of these names hides the built-in, and the
  name then denotes what the caller passed in that position. Formal parameters are bound by
  position; of two with the same name the later one wins; one beyond the supplied arguments
  is \<open>undefined\<close>. The declared names are taken to be identifiers: with any other name
  the emitted text does not parse and there is no stub.
\<close>

fun formal_value :: "string list \<Rightarrow> jsval list \<Rightarrow> string \<Rightarrow> jsval" where
  "formal_value [] actuals x = JUndefined"
| "formal_value (p # ps) actuals x =
     (if x \<in> set ps then formal_value ps (tl actuals) x
      else if p = x then (case actuals of [] \<Rightarrow> JUndefined | a # rest \<Rightarrow> a)
      else JUndefined)"

text \<open>
  How a piece of the body ends: normally, with a thrown error, or in a way that depends on
  members of an object or function the caller supplied (its \<open>length\<close>, its indexed elements,
  a method it carries), which the values of this model do not describe.
\<close>

datatype 'a completion = Normal 'a | Throws error | Depends_on jsval

text \<open>
  \<open>Array.prototype.slice.call(v)\<close> for a \<open>v\<close> that is not the arguments object: \<open>undefined\<close>
  and \<open>null\<close> cannot be converted to an object; a boolean or a number has no elements; a
  string has its characters.
\<close>

fun slice_call :: "jsval \<Rightarrow> jsval list completion" where
  "slice_call JUndefined = Throws TypeError"
| "slice_call JNull = Throws TypeError"
| "slice_call (JBool b) = Normal []"
| "slice_call (JNum n) = Normal []"
| "slice_call (JStr s) = Normal (map (\<lambda>c. JStr [c]) s)"
| "slice_call v = Depends_on v"

text \<open>
  \<open>X.prototype.slice.call(...)\<close> and \<open>X.min(...)\<close> where \<open>X\<close> denotes a value of the caller: a
  primitive has no member \<open>prototype\<close> and no member \<open>min\<close>, so the expression throws.
\<close>

fun member_call_on :: "jsval \<Rightarrow> 'a completion" where
  "member_call_on (JFun f ps) = Depends_on (JFun f ps)"
| "member_call_on (JObj c ps) = Depends_on (JObj c ps)"
| "member_call_on v = Throws TypeError"

subsection \<open>The body of a stub\<close>

text \<open>Line 129: \<open>var args = Array.prototype.slice.call(arguments)\<close>.\<close>

definition sliced_arguments :: "string list \<Rightarrow> jsval list \<Rightarrow> jsval list completion" where
  "sliced_arguments formals actuals =
     (if ''Array'' \<in> set formals then member_call_on (formal_value formals actuals ''Array'')
      else if ''arguments'' \<in> set formals
        then slice_call (formal_value formals actuals ''arguments'')
      else Normal actuals)"

text \<open>Lines 130-133. \<open>args.pop()\<close> removes the last element and returns it.\<close>

definition pop_callback :: "jsval list \<Rightarrow> jsval list \<times> jsval" where
  "pop_callback args =
     (if length args \<noteq> 0 \<and> typeof (last args) = ''function''
      then (butlast args, last args)
      else (args, JNull))"

text \<open>
  Line 134. The template writes \<open>args.length = Math.min(n, args.length)\<close> when \<open>n > 0\<close> and
  \<open>args.length = 0\<close> otherwise; \<open>args.length = k\<close> with \<open>k \<le> args.length\<close> keeps the first \<open>k\<close>
  elements.
\<close>

definition truncate_args :: "stubDef \<Rightarrow> jsval list \<Rightarrow> jsval list \<Rightarrow> jsval list completion" where
  "truncate_args st actuals args =
     (if stub_nparams st > 0
      then (if ''Math'' \<in> set (stub_formals st)
            then member_call_on (formal_value (stub_formals st) actuals ''Math'')
            else Normal (take (min (stub_nparams st) (length args)) args))
      else Normal (take 0 args))"

text \<open>
  Lines 129-140: one invocation of the stub on \<open>this\<close> with the supplied arguments. When it
  completes, the tunnel has been handed one call.
\<close>

definition invoke_stub :: "stubDef \<Rightarrow> proxy \<Rightarrow> jsval list \<Rightarrow> proxy completion" where
  "invoke_stub st this actuals =
     (case sliced_arguments (stub_formals st) actuals of
        Throws e \<Rightarrow> Throws e
      | Depends_on v \<Rightarrow> Depends_on v
      | Normal args0 \<Rightarrow>
          (let (args1, callback) = pop_callback args0
           in case truncate_args st actuals args1 of
                Throws e \<Rightarrow> Throws e
              | Depends_on v \<Rightarrow> Depends_on v
              | Normal args \<Rightarrow>
                  Normal (this\<lparr>rpc := rpc_call (rpc this)
                    \<lparr>rpc_method = stub_method st, rpc_params = args,
                     expectReturn = Some (stub_expectReturn st),
                     transport = defaultTransport this, callback = callback\<rparr>\<rparr>)))"

subsection \<open>Stubs whose parameters hide nothing\<close>

definition callable :: "jsval \<Rightarrow> bool" where
  "callable v = (typeof v = ''function'')"

definition regular_formals :: "string list \<Rightarrow> bool" where
  "regular_formals formals =
     (''arguments'' \<notin> set formals \<and> ''Array'' \<notin> set formals \<and> ''Math'' \<notin> set formals)"

lemma take_prefix_of_supplied:
  fixes as :: "'a list"
  assumes "ps = as \<or> ps = butlast as"
  shows "take n ps = take (min n (length ps)) as"
proof -
  have "ps = take (length ps) as"
    using assms by (auto simp: butlast_conv_take)
  then have "take n ps = take n (take (length ps) as)"
    by (rule arg_cong)
  then show ?thesis
    by (simp only: take_take)
qed

text \<open>
  For a method none of whose declared parameters is called \<open>arguments\<close>, \<open>Array\<close> or \<open>Math\<close>,
  and every argument list: the stub completes; a callable last argument is removed and
  becomes the callback, whatever the number of declared parameters; the call carries the
  first \<open>n\<close> of the remaining arguments, \<open>n\<close> being the number of declared parameters of the
  method, and these are a prefix of what was supplied.
\<close>

lemma regular_stub_callback_and_truncation:
  assumes "regular_formals (params m)"
  shows "invoke_stub (methodStub methodName m) this as =
       Normal (this\<lparr>rpc := rpc_call (rpc this)
         \<lparr>rpc_method = methodName,
          rpc_params = take (length (params m))
                         (if as \<noteq> [] \<and> callable (last as) then butlast as else as),
          expectReturn = Some (truthy (returns m) \<or> truthy (async m)),
          transport = defaultTransport this,
          callback = (if as \<noteq> [] \<and> callable (last as) then last as else JNull)\<rparr>\<rparr>)
     \<and> take (length (params m)) (if as \<noteq> [] \<and> callable (last as) then butlast as else as) =
         take (min (length (params m))
                 (length (if as \<noteq> [] \<and> callable (last as) then butlast as else as))) as"
proof -
  let ?positional = "if as \<noteq> [] \<and> callable (last as) then butlast as else as"
  have slice: "sliced_arguments (params m) as = Normal as"
    using assms by (simp add: sliced_arguments_def regular_formals_def)
  have pop: "pop_callback as = (?positional, if as \<noteq> [] \<and> callable (last as) then last as else JNull)"
    by (simp add: pop_callback_def callable_def)
  have trunc: "truncate_args (methodStub methodName m) as ?positional =
      Normal (take (length (params m)) ?positional)"
    using assms by (simp add: truncate_args_def methodStub_def regular_formals_def min_def)
  have call: "invoke_stub (methodStub methodName m) this as =
       Normal (this\<lparr>rpc := rpc_call (rpc this)
         \<lparr>rpc_method = methodName, rpc_params = take (length (params m)) ?positional,
          expectReturn = Some (truthy (returns m) \<or> truthy (async m)),
          transport = defaultTransport this,
          callback = (if as \<noteq> [] \<and> callable (last as) then last as else JNull)\<rparr>\<rparr>)"
    unfolding invoke_stub_def
    by (simp add: methodStub_def slice pop trunc [unfolded methodStub_def])
  have "?positional = as \<or> ?positional = butlast as"
    by simp
  then have "take (length (params m)) ?positional =
      take (min (length (params m)) (length ?positional)) as"
    by (rule take_prefix_of_supplied)
  with call show ?thesis by (rule conjI)
qed

lemma regular_stub_examples:
  "\<exists>p. invoke_stub
       (methodStub ''sum'' \<lparr>params = [''a'', ''b''], returns = JStr ''int'', async = JUndefined\<rparr>)
       fresh_Tester [JNum 1, JNum 2, JNum 3, JFun (Plain ''cb'') []] = Normal p
     \<and> calls (rpc p) =
       [\<lparr>rpc_method = ''sum'', rpc_params = [JNum 1, JNum 2], expectReturn = Some True,
         transport = ''http'', callback = JFun (Plain ''cb'') []\<rparr>]"
  "\<exists>p. invoke_stub
       (methodStub ''sum'' \<lparr>params = [''a'', ''b''], returns = JStr ''int'', async = JUndefined\<rparr>)
       fresh_Tester [JNum 1] = Normal p
     \<and> calls (rpc p) =
       [\<lparr>rpc_method = ''sum'', rpc_params = [JNum 1], expectReturn = Some True,
         transport = ''http'', callback = JNull\<rparr>]"
  using regular_stub_callback_and_truncation
          [of "\<lparr>params = [''a'', ''b''], returns = JStr ''int'', async = JUndefined\<rparr>" "''sum''"
              fresh_Tester "[JNum 1, JNum 2, JNum 3, JFun (Plain ''cb'') []]"]
        regular_stub_callback_and_truncation
          [of "\<lparr>params = [''a'', ''b''], returns = JStr ''int'', async = JUndefined\<rparr>" "''sum''"
              fresh_Tester "[JNum 1]"]
  by (simp_all add: regular_formals_def callable_def rpc_call_def calls_fresh_Tester)
     (simp_all add: fresh_Tester_def)

subsection \<open>A parameter called \<open>arguments\<close>\<close>

text \<open>
  Claim C2 at a method \<open>exec\<close> whose one declared parameter is called \<open>arguments\<close>, invoked
  as \<open>exec('-lh', cb)\<close>. Line 128 emits \<open>function(arguments)\<close>, so in line 129 \<open>arguments\<close> is
  the string \<open>'-lh'\<close> and \<open>args\<close> becomes its characters. The last of them is no function:
  the callback stays \<open>null\<close> and \<open>cb\<close> is dropped, and the call carries the parameter \<open>'-'\<close>,
  which nobody supplied. The same method with the parameter called \<open>options\<close> captures \<open>cb\<close>
  and sends \<open>'-lh'\<close>.
\<close>

theorem stub_parameter_named_arguments:
  "invoke_stub
       (methodStub ''exec'' \<lparr>params = [''arguments''], returns = JUndefined, async = JUndefined\<rparr>)
       fresh_Tester [JStr ''-lh'', JFun (Plain ''cb'') []] =
     Normal (fresh_Tester\<lparr>rpc := rpc_call (rpc fresh_Tester)
       \<lparr>rpc_method = ''exec'', rpc_params = [JStr ''-''], expectReturn = Some False,
        transport = ''http'', callback = JNull\<rparr>\<rparr>)
   \<and> invoke_stub
       (methodStub ''exec'' \<lparr>params = [''options''], returns = JUndefined, async = JUndefined\<rparr>)
       fresh_Tester [JStr ''-lh'', JFun (Plain ''cb'') []] =
     Normal (fresh_Tester\<lparr>rpc := rpc_call (rpc fresh_Tester)
       \<lparr>rpc_method = ''exec'', rpc_params = [JStr ''-lh''], expectReturn = Some False,
        transport = ''http'', callback = JFun (Plain ''cb'') []\<rparr>\<rparr>)"
  by (simp add: invoke_stub_def methodStub_def sliced_arguments_def pop_callback_def
        truncate_args_def fresh_Tester_def)

text \<open>Called without arguments, the same stub throws instead of calling the tunnel.\<close>

lemma stub_without_arguments_throws:
  "invoke_stub
       (methodStub ''exec'' \<lparr>params = [''arguments''], returns = JUndefined, async = JUndefined\<rparr>)
       fresh_Tester [] = Throws TypeError"
  by (simp add: invoke_stub_def methodStub_def sliced_arguments_def)

section \<open>The constructor\<close>

text \<open>
  How an invocation of the constructor function ends: with \<open>return new <localName>(url)\<close>
  (line 16), with a thrown error (line 19), or by falling off the end with \<open>this\<close>
  initialised.
\<close>

datatype ctor_result = Returned_new jsval | Thrown error | Constructed proxy

text \<open>Line 15: \<open>!this instanceof <localName>\<close> parses as \<open>(!this) instanceof <localName>\<close>.\<close>

definition ctor_guard :: "jsval \<Rightarrow> string \<Rightarrow> bool" where
  "ctor_guard this localName = instanceof (js_not this) localName"

text \<open>\<open>prop.bind(self)\<close>: a new function object with no enumerable properties of its own.\<close>

fun bind :: "jsval \<Rightarrow> objid \<Rightarrow> jsval" where
  "bind (JFun f ps) self = JFun (Bound f self) []"
| "bind v self = v"

text \<open>
  Lines 27-38. \<open>for (var i in obj)\<close> visits the enumerable properties of an object or a
  function; a primitive or \<open>null\<close> contributes nothing that is a function or an object.
\<close>

fun rebind :: "objid \<Rightarrow> jsval \<Rightarrow> jsval"
  and rebind_props :: "objid \<Rightarrow> (string \<times> jsval) list \<Rightarrow> (string \<times> jsval) list" where
  "rebind self (JObj c ps) = JObj [''Object''] (rebind_props self ps)"
| "rebind self (JFun f ps) = JObj [''Object''] (rebind_props self ps)"
| "rebind self v = JObj [''Object''] []"
| "rebind_props self [] = []"
| "rebind_props self ((i, prop) # ps) =
     (if typeof prop = ''function'' then (i, bind prop self) # rebind_props self ps
      else if typeof prop = ''object'' then (i, rebind self prop) # rebind_props self ps
      else rebind_props self ps)"

text \<open>Line 40: \<open>this[i] && this[i]._ns\<close>.\<close>

definition has_ns :: "jsval \<Rightarrow> bool" where
  "has_ns v = (truthy v \<and> truthy (get_prop v ''_ns''))"

text \<open>
  Lines 14-44. \<open>this\<close> is given by its identity \<open>self\<close> and its value; the properties that
  \<open>for (var i in this)\<close> visits are those of \<open>this\<close> other than the two the constructor has
  just assigned, which hold a string and the tunnel.
\<close>

definition Proxy_ctor :: "string \<Rightarrow> objid \<Rightarrow> jsval \<Rightarrow> jsval \<Rightarrow> jsval \<Rightarrow> ctor_result" where
  "Proxy_ctor localName self this url ssl =
     (if ctor_guard this localName then Returned_new url
      else if \<not> truthy url \<or> typeof url \<noteq> ''string'' then Thrown (Error ''Invalid proxy URL'')
      else Constructed
        \<lparr>oid = self,
         defaultTransport = ''http'',
         rpc = rpc_on (RpcTunnel url ssl) ''event'',
         listeners_of = (\<lambda>type. []),
         members = map (\<lambda>(i, v). if has_ns v then (i, rebind self v) else (i, v))
                     (filter (\<lambda>(i, v). i \<notin> set [''defaultTransport'', ''rpc'']) (props_of this))\<rparr>)"

text \<open>\<open>new <localName>(url, sslSettings)\<close>: \<open>this\<close> is a fresh object that inherits the prototype.\<close>

definition construct :: "string \<Rightarrow> objid \<Rightarrow> (string \<times> jsval) list \<Rightarrow> jsval \<Rightarrow> jsval \<Rightarrow> ctor_result" where
  "construct localName self prototype url ssl =
     Proxy_ctor localName self (JObj [localName, ''EventEmitter'', ''Object''] prototype) url ssl"

section \<open>The members of the prototype\<close>

text \<open>
  Lines 47-78 assign these members of \<open><localName>.prototype\<close>, in this order; the template
  assigns no other member besides the namespace containers and the method stubs of the
  metadata.
\<close>

definition template_methods :: "string list" where
  "template_methods =
     [''useHTTP'', ''useWS'', ''close'', ''on'', ''addListener'', ''removeListener'',
      ''removeAllListeners'']"

section \<open>Transport selection\<close>

text \<open>Lines 47-55. Both methods return \<open>this\<close>: the updated state together with the reference returned.\<close>

definition useHTTP :: "proxy \<Rightarrow> proxy \<times> objid" where
  "useHTTP this = (this\<lparr>defaultTransport := ''http''\<rparr>, oid this)"

definition useWS :: "proxy \<Rightarrow> proxy \<times> objid" where
  "useWS this = (this\<lparr>defaultTransport := ''ws''\<rparr>, oid this)"

definition close :: "proxy \<Rightarrow> proxy" where
  "close this = this\<lparr>rpc := rpc_close (rpc this)\<rparr>"

section \<open>Event listeners\<close>

text \<open>
  Modelled from the spec: the event-emitter base class (\<open>RpcClient.ports.EventEmitter\<close> is
  not among the sources). Per event name it keeps the list of registered listeners;
  \<open>listeners\<close> reads it, \<open>addListener\<close> appends, \<open>removeListener\<close> removes one registration
  and \<open>removeAllListeners\<close> empties it.
\<close>

definition listeners :: "proxy \<Rightarrow> string \<Rightarrow> jsval list" where
  "listeners this type = listeners_of this type"

definition EventEmitter_addListener :: "proxy \<Rightarrow> string \<Rightarrow> jsval \<Rightarrow> proxy" where
  "EventEmitter_addListener this type listener =
     this\<lparr>listeners_of := (listeners_of this)(type := listeners_of this type @ [listener])\<rparr>"

definition EventEmitter_removeListener :: "proxy \<Rightarrow> string \<Rightarrow> jsval \<Rightarrow> proxy" where
  "EventEmitter_removeListener this type listener =
     this\<lparr>listeners_of := (listeners_of this)(type := rev (remove1 listener (rev (listeners_of this type))))\<rparr>"

definition EventEmitter_removeAllListeners :: "proxy \<Rightarrow> string \<Rightarrow> proxy" where
  "EventEmitter_removeAllListeners this type =
     this\<lparr>listeners_of := (listeners_of this)(type := [])\<rparr>"

text \<open>The control calls of lines 63, 71 and 77.\<close>

definition control_call :: "string \<Rightarrow> string \<Rightarrow> rpcCall" where
  "control_call m type =
     \<lparr>rpc_method = m, rpc_params = [JStr type], expectReturn = None, transport = ''ws'',
      callback = JUndefined\<rparr>"

text \<open>Lines 61-66 (\<open>on\<close> is the same function).\<close>

definition addListener :: "proxy \<Rightarrow> string \<Rightarrow> jsval \<Rightarrow> proxy" where
  "addListener this type listener =
     (let this1 = (if length (listeners this type) = 0
                   then this\<lparr>rpc := rpc_call (rpc this) (control_call ''rpc.on'' type)\<rparr>
                   else this)
      in EventEmitter_addListener this1 type listener)"

text \<open>Lines 68-73.\<close>

definition removeListener :: "proxy \<Rightarrow> string \<Rightarrow> jsval \<Rightarrow> proxy" where
  "removeListener this type listener =
     (let this1 = EventEmitter_removeListener this type listener
      in if length (listeners this1 type) = 0
         then this1\<lparr>rpc := rpc_call (rpc this1) (control_call ''rpc.off'' type)\<rparr>
         else this1)"

text \<open>Lines 75-78.\<close>

definition removeAllListeners :: "proxy \<Rightarrow> string \<Rightarrow> proxy" where
  "removeAllListeners this type =
     (let this1 = EventEmitter_removeAllListeners this type
      in this1\<lparr>rpc := rpc_call (rpc this1) (control_call ''rpc.off'' type)\<rparr>)"

section \<open>Properties of the runtime\<close>

text \<open>
  Claim C5. Adding a listener for an event name that has no listener appends exactly one
  call to the tunnel: method \<open>rpc.on\<close>, the event name as the single parameter, transport
  \<open>ws\<close> whatever the default transport of the proxy is. Adding a listener for a name that
  already has one appends no call. In both cases the listener is registered.
\<close>

theorem addListener_subscribes_first:
  "calls (rpc (addListener this type listener)) =
     calls (rpc this) @
       (if listeners this type = []
        then [\<lparr>rpc_method = ''rpc.on'', rpc_params = [JStr type], expectReturn = None,
               transport = ''ws'', callback = JUndefined\<rparr>]
        else [])
   \<and> listeners (addListener this type listener) type = listeners this type @ [listener]"
  by (simp add: addListener_def EventEmitter_addListener_def listeners_def rpc_call_def
        control_call_def)

theorem addListener_subscribes_first_witness:
  "calls (rpc (addListener (addListener (fst (useHTTP fresh_Tester)) ''progress'' (JFun (Plain ''f'') []))
                ''progress'' (JFun (Plain ''g'') []))) =
     [\<lparr>rpc_method = ''rpc.on'', rpc_params = [JStr ''progress''], expectReturn = None,
       transport = ''ws'', callback = JUndefined\<rparr>]"
proof -
  let ?p0 = "fst (useHTTP fresh_Tester)"
  let ?p1 = "addListener ?p0 ''progress'' (JFun (Plain ''f'') [])"
  have l0: "listeners ?p0 ''progress'' = []"
    by (simp add: useHTTP_def fresh_Tester_def listeners_def)
  have c0: "calls (rpc ?p0) = []"
    by (simp add: useHTTP_def calls_fresh_Tester)
  have s1: "calls (rpc ?p1) =
      [\<lparr>rpc_method = ''rpc.on'', rpc_params = [JStr ''progress''], expectReturn = None,
        transport = ''ws'', callback = JUndefined\<rparr>]
      \<and> listeners ?p1 ''progress'' = [JFun (Plain ''f'') []]"
    using addListener_subscribes_first [of ?p0 "''progress''" "JFun (Plain ''f'') []"]
    by (simp only: l0 c0 if_True append_Nil refl)
  then have l1: "listeners ?p1 ''progress'' \<noteq> []"
    by simp
  show ?thesis
    using addListener_subscribes_first [of ?p1 "''progress''" "JFun (Plain ''g'') []"] s1 l1
    by simp
qed

text \<open>
  Claim C6. \<open>removeAllListeners(name)\<close> appends exactly one call to the tunnel, whatever the
  listeners of \<open>name\<close> were, also when there were none: method \<open>rpc.off\<close>, the event name as
  the single parameter, transport \<open>ws\<close>. Afterwards \<open>name\<close> has no listener.
\<close>

theorem removeAllListeners_always_unsubscribes:
  "calls (rpc (removeAllListeners this type)) =
     calls (rpc this) @
       [\<lparr>rpc_method = ''rpc.off'', rpc_params = [JStr type], expectReturn = None,
         transport = ''ws'', callback = JUndefined\<rparr>]
   \<and> listeners (removeAllListeners this type) type = []"
  by (simp add: removeAllListeners_def EventEmitter_removeAllListeners_def listeners_def
        rpc_call_def control_call_def)


theorem removeAllListeners_always_unsubscribes_witness:
  "listeners fresh_Tester ''progress'' = []
   \<and> calls (rpc (removeAllListeners fresh_Tester ''progress'')) =
     [\<lparr>rpc_method = ''rpc.off'', rpc_params = [JStr ''progress''], expectReturn = None,
       transport = ''ws'', callback = JUndefined\<rparr>]"
  using removeAllListeners_always_unsubscribes [of fresh_Tester "''progress''"]
  by (simp add: calls_fresh_Tester) (simp add: fresh_Tester_def listeners_def)

subsection \<open>The constructor's guard\<close>

lemma instanceof_boolean: "instanceof (JBool b) C = False"
  by simp

text \<open>
  Claim C10. The condition of line 15 is false for every \<open>this\<close> and every class name: the
  negation yields a boolean, and a boolean is an instance of nothing. So no invocation of the
  constructor ends with \<open>return new <localName>(url)\<close>.
\<close>

theorem ctor_guard_never_holds:
  "ctor_guard this localName = False
   \<and> Proxy_ctor localName self this url ssl \<noteq> Returned_new u"
  by (simp add: ctor_guard_def js_not_def Proxy_ctor_def)

theorem ctor_guard_never_holds_witness:
  "ctor_guard JUndefined ''Tester'' = False
   \<and> ctor_guard (JObj [''Window'', ''Object''] []) ''Tester'' = False
   \<and> instanceof (JObj [''Tester'', ''EventEmitter'', ''Object''] []) ''Tester''
   \<and> Proxy_ctor ''Tester'' 0 JUndefined (JStr ''http://localhost:3000/endpoint/1.0'') JUndefined
       \<noteq> Returned_new (JStr ''http://localhost:3000/endpoint/1.0'')"
  using ctor_guard_never_holds [of JUndefined "''Tester''" 0 "JStr ''http://localhost:3000/endpoint/1.0''" JUndefined
          "JStr ''http://localhost:3000/endpoint/1.0''"]
        ctor_guard_never_holds [of "JObj [''Window'', ''Object''] []" "''Tester''" 0 JUndefined JUndefined JUndefined]
  by simp

subsection \<open>The base URL\<close>

text \<open>The specification's ``non-empty base-URL string''.\<close>

fun nonempty_string :: "jsval \<Rightarrow> bool" where
  "nonempty_string (JStr s) = (s \<noteq> [])"
| "nonempty_string v = False"

lemma invalid_url_iff: "(\<not> truthy url \<or> typeof url \<noteq> ''string'') = (\<not> nonempty_string url)"
  by (cases url) auto

text \<open>
  Claim C8. Constructing with \<open>new\<close>: when the URL is missing (\<open>undefined\<close>) or is anything but
  a non-empty string, the constructor throws \<open>Error('Invalid proxy URL')\<close>; when it is a
  non-empty string the constructor completes, the default transport is \<open>http\<close>, and the
  tunnel was created for that URL and has been handed no call yet.
\<close>

theorem construct_requires_url:
  "(nonempty_string url \<longrightarrow>
      (\<exists>p. construct localName self prototype url ssl = Constructed p
           \<and> defaultTransport p = ''http'' \<and> oid p = self
           \<and> tunnel_url (rpc p) = url \<and> calls (rpc p) = []))
   \<and> (\<not> nonempty_string url \<longrightarrow>
      construct localName self prototype url ssl = Thrown (Error ''Invalid proxy URL''))"
  using invalid_url_iff [of url]
  by (simp add: construct_def Proxy_ctor_def ctor_guard_def js_not_def rpc_on_def RpcTunnel_def)

theorem construct_requires_url_witness:
  "(\<exists>p. construct ''Tester'' 1 [] (JStr ''http://localhost:3000/endpoint/1.0'') JUndefined = Constructed p
        \<and> defaultTransport p = ''http'')
   \<and> construct ''Tester'' 1 [] JUndefined JUndefined = Thrown (Error ''Invalid proxy URL'')
   \<and> construct ''Tester'' 1 [] (JStr []) JUndefined = Thrown (Error ''Invalid proxy URL'')
   \<and> construct ''Tester'' 1 [] (JNum 8080) JUndefined = Thrown (Error ''Invalid proxy URL'')"
  using construct_requires_url [of "JStr ''http://localhost:3000/endpoint/1.0''" "''Tester''" 1 "[]" JUndefined]
        construct_requires_url [of JUndefined "''Tester''" 1 "[]" JUndefined]
        construct_requires_url [of "JStr []" "''Tester''" 1 "[]" JUndefined]
        construct_requires_url [of "JNum 8080" "''Tester''" 1 "[]" JUndefined]
  by auto

subsection \<open>Switching the transport\<close>

text \<open>
  A sequence of method calls on one proxy: a call that throws ends the sequence, since the
  exception leaves the caller's code.
\<close>

fun invoke_all :: "proxy \<Rightarrow> (stubDef \<times> jsval list) list \<Rightarrow> proxy" where
  "invoke_all this [] = this"
| "invoke_all this ((st, as) # rest) =
     (case invoke_stub st this as of
        Normal this' \<Rightarrow> invoke_all this' rest
      | Throws e \<Rightarrow> this
      | Depends_on v \<Rightarrow> this)"

lemma invoke_stub_Normal:
  assumes "invoke_stub st this as = Normal this'"
  shows "\<exists>c. calls (rpc this') = calls (rpc this) @ [c] \<and> transport c = defaultTransport this
           \<and> defaultTransport this' = defaultTransport this \<and> oid this' = oid this"
  using assms
  by (auto simp: invoke_stub_def rpc_call_def case_prod_unfold Let_def split: completion.splits)

lemma regular_stub_completes:
  assumes "regular_formals (stub_formals st)"
  shows "\<exists>this'. invoke_stub st this as = Normal this'"
  using assms
  by (simp add: invoke_stub_def sliced_arguments_def truncate_args_def regular_formals_def
        case_prod_unfold Let_def)

lemma invoke_all_calls:
  "\<exists>new. calls (rpc (invoke_all this cs)) = calls (rpc this) @ new
         \<and> (\<forall>c \<in> set new. transport c = defaultTransport this)
         \<and> length new \<le> length cs
         \<and> (list_all (\<lambda>(st, as). regular_formals (stub_formals st)) cs \<longrightarrow> length new = length cs)"
proof (induction cs arbitrary: this)
  case Nil
  then show ?case by simp
next
  case (Cons a cs)
  obtain st as where a: "a = (st, as)" by (cases a)
  show ?case
  proof (cases "invoke_stub st this as")
    case (Normal this')
    obtain c where c: "calls (rpc this') = calls (rpc this) @ [c]"
        "transport c = defaultTransport this" "defaultTransport this' = defaultTransport this"
      using invoke_stub_Normal [OF Normal] by blast
    obtain new where new: "calls (rpc (invoke_all this' cs)) = calls (rpc this') @ new"
        "\<forall>c \<in> set new. transport c = defaultTransport this'"
        "length new \<le> length cs"
        "list_all (\<lambda>(st, as). regular_formals (stub_formals st)) cs \<longrightarrow> length new = length cs"
      using Cons.IH [of this'] by blast
    have "calls (rpc (invoke_all this (a # cs))) = calls (rpc this) @ (c # new)"
      using a Normal c(1) new(1) by simp
    moreover have "\<forall>x \<in> set (c # new). transport x = defaultTransport this"
      using c(2,3) new(2) by simp
    moreover have "length (c # new) \<le> length (a # cs)"
      using new(3) by simp
    moreover have "list_all (\<lambda>(st, as). regular_formals (stub_formals st)) (a # cs) \<longrightarrow>
        length (c # new) = length (a # cs)"
      using new(4) by simp
    ultimately show ?thesis by blast
  next
    case (Throws e)
    have "\<not> regular_formals (stub_formals st)"
      using regular_stub_completes [of st this as] Throws by auto
    then have "\<not> list_all (\<lambda>(st, as). regular_formals (stub_formals st)) (a # cs)"
      using a by simp
    moreover have "calls (rpc (invoke_all this (a # cs))) = calls (rpc this) @ []"
      using a Throws by simp
    ultimately show ?thesis by force
  next
    case (Depends_on v)
    have "\<not> regular_formals (stub_formals st)"
      using regular_stub_completes [of st this as] Depends_on by auto
    then have "\<not> list_all (\<lambda>(st, as). regular_formals (stub_formals st)) (a # cs)"
      using a by simp
    moreover have "calls (rpc (invoke_all this (a # cs))) = calls (rpc this) @ []"
      using a Depends_on by simp
    ultimately show ?thesis by force
  qed
qed

text \<open>
  Claim C9, as the code has it. The two members that switch the transport are \<open>useHTTP\<close> and
  \<open>useWS\<close>. Each sets the transport that every method call made afterwards carries: any
  sequence of calls hands the tunnel at most one call object per method call, exactly one
  when no declared parameter of the methods hides a built-in, and each call object has
  transport \<open>http\<close>, respectively \<open>ws\<close>. Each returns the proxy instance itself, so that calls
  can be chained, and the later of two switches decides.
\<close>

theorem use_transport_switches_and_chains:
  "''useHTTP'' \<in> set template_methods \<and> ''useWS'' \<in> set template_methods
   \<and> (\<exists>new. calls (rpc (invoke_all (fst (useHTTP this)) cs)) = calls (rpc this) @ new
          \<and> (\<forall>c \<in> set new. transport c = ''http'')
          \<and> length new \<le> length cs
          \<and> (list_all (\<lambda>(st, as). regular_formals (stub_formals st)) cs \<longrightarrow>
               length new = length cs))
   \<and> (\<exists>new. calls (rpc (invoke_all (fst (useWS this)) cs)) = calls (rpc this) @ new
          \<and> (\<forall>c \<in> set new. transport c = ''ws'')
          \<and> length new \<le> length cs
          \<and> (list_all (\<lambda>(st, as). regular_formals (stub_formals st)) cs \<longrightarrow>
               length new = length cs))
   \<and> snd (useHTTP this) = oid this \<and> oid (fst (useHTTP this)) = oid this
   \<and> snd (useWS this) = oid this \<and> oid (fst (useWS this)) = oid this
   \<and> defaultTransport (fst (useHTTP (fst (useWS this)))) = ''http''
   \<and> defaultTransport (fst (useWS (fst (useHTTP this)))) = ''ws''"
proof -
  have http: "defaultTransport (fst (useHTTP this)) = ''http''" "rpc (fst (useHTTP this)) = rpc this"
    by (simp_all add: useHTTP_def)
  have ws: "defaultTransport (fst (useWS this)) = ''ws''" "rpc (fst (useWS this)) = rpc this"
    by (simp_all add: useWS_def)
  have "\<exists>new. calls (rpc (invoke_all (fst (useHTTP this)) cs)) = calls (rpc this) @ new
          \<and> (\<forall>c \<in> set new. transport c = ''http'')
          \<and> length new \<le> length cs
          \<and> (list_all (\<lambda>(st, as). regular_formals (stub_formals st)) cs \<longrightarrow>
               length new = length cs)"
    using invoke_all_calls [of "fst (useHTTP this)" cs] by (simp only: http)
  moreover have "\<exists>new. calls (rpc (invoke_all (fst (useWS this)) cs)) = calls (rpc this) @ new
          \<and> (\<forall>c \<in> set new. transport c = ''ws'')
          \<and> length new \<le> length cs
          \<and> (list_all (\<lambda>(st, as). regular_formals (stub_formals st)) cs \<longrightarrow>
               length new = length cs)"
    using invoke_all_calls [of "fst (useWS this)" cs] by (simp only: ws)
  ultimately show ?thesis
    by (simp add: useHTTP_def useWS_def template_methods_def)
qed

theorem use_transport_switches_and_chains_witness:
  "map transport (calls (rpc (invoke_all (fst (useWS fresh_Tester))
       [(methodStub ''vray.start'' \<lparr>params = [], returns = JUndefined, async = JBool True\<rparr>, []),
        (methodStub ''sum'' \<lparr>params = [''a'', ''b''], returns = JStr ''int'', async = JUndefined\<rparr>,
         [JNum 1, JNum 2])]))) = [''ws'', ''ws'']
   \<and> snd (useWS fresh_Tester) = 7"
proof -
  let ?cs = "[(methodStub ''vray.start'' \<lparr>params = [], returns = JUndefined, async = JBool True\<rparr>, []),
        (methodStub ''sum'' \<lparr>params = [''a'', ''b''], returns = JStr ''int'', async = JUndefined\<rparr>,
         [JNum 1, JNum 2])]"
  have regular: "list_all (\<lambda>(st, as). regular_formals (stub_formals st)) ?cs"
    by (simp add: methodStub_def regular_formals_def)
  obtain new where new: "calls (rpc (invoke_all (fst (useWS fresh_Tester)) ?cs)) = calls (rpc fresh_Tester) @ new"
      "\<forall>c \<in> set new. transport c = ''ws''"
      "list_all (\<lambda>(st, as). regular_formals (stub_formals st)) ?cs \<longrightarrow> length new = length ?cs"
    using use_transport_switches_and_chains [of fresh_Tester ?cs] by blast
  from new(3) regular have "length new = length ?cs"
    by (rule mp)
  then obtain a b where ab: "new = [a, b]"
    by (auto simp: length_Suc_conv)
  have "map transport (calls (rpc (invoke_all (fst (useWS fresh_Tester)) ?cs))) = [''ws'', ''ws'']"
    using new(1,2) ab by (simp add: calls_fresh_Tester)
  moreover have "snd (useWS fresh_Tester) = 7"
    using use_transport_switches_and_chains [of fresh_Tester ?cs] by (simp add: fresh_Tester_def)
  ultimately show ?thesis by simp
qed

text \<open>
  The claim as stated names the second member \<open>useSocket\<close>; the prototype has no member of
  that name.
\<close>

theorem useSocket_not_a_member:
  "''useSocket'' \<notin> set template_methods \<and> ''useWS'' \<in> set template_methods"
  by (simp add: template_methods_def)

subsection \<open>Rebinding\<close>



fun function_expression_only :: "func \<Rightarrow> bool" where
  "function_expression_only (Plain n) = True"
| "function_expression_only (Bound f r) = False"





text \<open>
  What the emitted statements create: line 110 a container \<open>{_ns:true}\<close>, to which later
  statements add members, and line 128 a function expression.
\<close>

definition stub_function :: "string \<Rightarrow> jsval" where
  "stub_function methodName = JFun (Plain methodName) []"

definition namespace_container :: "(string \<times> jsval) list \<Rightarrow> jsval" where
  "namespace_container ps = JObj [''Object''] ((''_ns'', JBool True) # ps)"

lemma has_ns_namespace_container: "has_ns (namespace_container ps)"
  by (simp add: has_ns_def namespace_container_def get_prop_def)

lemma function_expression_only_stub:
  "stub_function methodName = JFun f qs \<Longrightarrow> function_expression_only f"
  by (auto simp: stub_function_def)






section \<open>The compiler entry point\<close>

text \<open>
  \<open>getLanguageProxy\<close> (get-language-proxy.js, lines 16-38) returns a promise. The file
  system, \<open>path.resolve\<close> and the template engine are external: the environment gives the
  directory of the module, the function that joins path segments, the error \<open>fs.stat\<close>
  reports for a path (\<open>None\<close> when the file exists) and the result of \<open>ejs.renderFile\<close> for a
  template path and its data.
\<close>

record renderData =
  data_metadata :: metadata
  data_localName :: string

record environment =
  dirname :: string
  path_resolve :: "string list \<Rightarrow> string"
  fs_stat :: "string \<Rightarrow> error option"
  renderFile :: "string \<Rightarrow> renderData \<Rightarrow> error + string"

record options =
  serviceInstance :: metadata
  language :: string
  localName :: "string option"

datatype promise = Rejected error | Resolved string

text \<open>\<open>options.localName || 'Proxy'\<close>: an absent name and the empty string are both falsy.\<close>

fun localName_or_default :: "string option \<Rightarrow> string" where
  "localName_or_default None = ''Proxy''"
| "localName_or_default (Some s) = (if s \<noteq> [] then s else ''Proxy'')"

definition proxyScript :: "environment \<Rightarrow> options \<Rightarrow> string" where
  "proxyScript env opts =
     path_resolve env [dirname env, ''..'', ''proxies'', language opts @ ''.ejs'']"

definition getLanguageProxy :: "environment \<Rightarrow> options \<Rightarrow> promise" where
  "getLanguageProxy env opts =
     (case fs_stat env (proxyScript env opts) of
        Some err \<Rightarrow> Rejected err
      | None \<Rightarrow>
          (case renderFile env (proxyScript env opts)
                  \<lparr>data_metadata = serviceInstance opts,
                   data_localName = localName_or_default (localName opts)\<rparr> of
             Inl err \<Rightarrow> Rejected err
           | Inr html \<Rightarrow> Resolved html))"

text \<open>
  The lines of the JavaScript template that declare the namespace containers, as text
  (line 110, once per emitted namespace).
\<close>

definition namespace_lines :: "renderData \<Rightarrow> string" where
  "namespace_lines d =
     concat (map (\<lambda>ns. data_localName d @ ''.prototype.'' @ ns @ '' = {_ns:true};'' @ [CHR 0x0A])
               (generateNamespaceStubs (data_metadata d)))"

text \<open>
  Claim C7. An emitter is registered for a language when its template file exists. When
  \<open>fs.stat\<close> reports an error for the template of the requested language, the promise is
  rejected with that error, whatever the template engine would have produced, so no text is
  delivered; when the file exists and the engine renders it, the promise resolves to the
  rendered text; and there is an input for which it does.
\<close>

theorem getLanguageProxy_unsupported_language:
  "(fs_stat env (proxyScript env opts) = Some err \<longrightarrow>
      (\<forall>r. getLanguageProxy (env\<lparr>renderFile := r\<rparr>) opts = Rejected err))
   \<and> (fs_stat env (proxyScript env opts) = None \<longrightarrow>
        renderFile env (proxyScript env opts)
          \<lparr>data_metadata = serviceInstance opts,
           data_localName = localName_or_default (localName opts)\<rparr> = Inr html \<longrightarrow>
        getLanguageProxy env opts = Resolved html)
   \<and> (\<exists>env' opts' html'. fs_stat env' (proxyScript env' opts') = None
          \<and> getLanguageProxy env' opts' = Resolved html')"
proof (intro conjI)
  show "fs_stat env (proxyScript env opts) = Some err \<longrightarrow>
      (\<forall>r. getLanguageProxy (env\<lparr>renderFile := r\<rparr>) opts = Rejected err)"
    by (simp add: getLanguageProxy_def proxyScript_def)
  show "fs_stat env (proxyScript env opts) = None \<longrightarrow>
        renderFile env (proxyScript env opts)
          \<lparr>data_metadata = serviceInstance opts,
           data_localName = localName_or_default (localName opts)\<rparr> = Inr html \<longrightarrow>
        getLanguageProxy env opts = Resolved html"
    by (simp add: getLanguageProxy_def)
  let ?env = "\<lparr>dirname = ''/lib'', path_resolve = concat,
               fs_stat = (\<lambda>p. None), renderFile = (\<lambda>p d. Inr (namespace_lines d))\<rparr>"
  let ?opts = "\<lparr>serviceInstance = \<lparr>types = [], methods = [], events = []\<rparr>,
                language = ''JavaScript'', localName = None\<rparr>"
  have "fs_stat ?env (proxyScript ?env ?opts) = None
      \<and> getLanguageProxy ?env ?opts = Resolved []"
    by (simp add: getLanguageProxy_def namespace_lines_def generateNamespaceStubs_def
          namespaces_of_def)
  then show "\<exists>env' opts' html'. fs_stat env' (proxyScript env' opts') = None
          \<and> getLanguageProxy env' opts' = Resolved html'"
    by blast
qed

definition example_environment :: environment where
  "example_environment =
     \<lparr>dirname = ''/lib'',
      path_resolve = (\<lambda>segments. concat (map (\<lambda>s. ''/'' @ s) segments)),
      fs_stat = (\<lambda>p. if p = ''//lib/../proxies/JavaScript.ejs'' then None
                      else Some (Error ''ENOENT'')),
      renderFile = (\<lambda>p d. Inr (namespace_lines d))\<rparr>"

definition example_options :: "string \<Rightarrow> options" where
  "example_options lang =
     \<lparr>serviceInstance =
        \<lparr>types = [],
         methods = [(''vray.start'', \<lparr>params = [], returns = JUndefined, async = JBool True\<rparr>)],
         events = []\<rparr>,
      language = lang, localName = Some ''Tester''\<rparr>"

theorem getLanguageProxy_unsupported_language_witness:
  "getLanguageProxy example_environment (example_options ''Cobol'') = Rejected (Error ''ENOENT'')
   \<and> getLanguageProxy example_environment (example_options ''JavaScript'') =
       Resolved (''Tester.prototype.vray = {_ns:true};'' @ [CHR 0x0A])"
proof -
  have cobol: "fs_stat example_environment (proxyScript example_environment (example_options ''Cobol''))
      = Some (Error ''ENOENT'')"
    by (simp add: example_environment_def example_options_def proxyScript_def)
  have js: "fs_stat example_environment (proxyScript example_environment (example_options ''JavaScript''))
      = None"
    by (simp add: example_environment_def example_options_def proxyScript_def)
  have stubs: "generateNamespaceStubs (serviceInstance (example_options ''JavaScript'')) = [''vray'']"
    by (simp add: example_options_def ns_eval)
  have render: "renderFile example_environment
      (proxyScript example_environment (example_options ''JavaScript''))
      \<lparr>data_metadata = serviceInstance (example_options ''JavaScript''),
       data_localName = localName_or_default (localName (example_options ''JavaScript''))\<rparr>
      = Inr (''Tester.prototype.vray = {_ns:true};'' @ [CHR 0x0A])"
    by (simp add: example_environment_def namespace_lines_def stubs) (simp add: example_options_def)
  have "getLanguageProxy (example_environment\<lparr>renderFile := renderFile example_environment\<rparr>)
      (example_options ''Cobol'') = Rejected (Error ''ENOENT'')"
    using getLanguageProxy_unsupported_language
      [of example_environment "example_options ''Cobol''" "Error ''ENOENT''"] cobol
    by blast
  moreover have "getLanguageProxy example_environment (example_options ''JavaScript'') =
       Resolved (''Tester.prototype.vray = {_ns:true};'' @ [CHR 0x0A])"
    using getLanguageProxy_unsupported_language
      [of example_environment "example_options ''JavaScript''" _
          "''Tester.prototype.vray = {_ns:true};'' @ [CHR 0x0A]"] js render
    by blast
  ultimately show ?thesis by simp
qed

section \<open>The specification's scenario\<close>

text \<open>
  An enum \<open>Mode = {A: 0, B: 1}\<close> and a method \<open>vray.start\<close> without parameters that is
  \<open>async\<close>, compiled with the local name \<open>Tester\<close>.
\<close>

definition scenario_metadata :: metadata where
  "scenario_metadata =
     \<lparr>types = [(''Mode'', \<lparr>type_name = ''Mode'', enum = True, struct = [(''A'', 0), (''B'', 1)]\<rparr>)],
      methods = [(''vray.start'', \<lparr>params = [], returns = JUndefined, async = JBool True\<rparr>)],
      events = []\<rparr>"

lemma scenario_namespaces: "generateNamespaceStubs scenario_metadata = [''vray'']"
  by (simp add: scenario_metadata_def ns_eval)

lemma scenario_stubs:
  "generateMethodStubs scenario_metadata =
     [\<lparr>stub_method = ''vray.start'', stub_formals = [], stub_nparams = 0,
       stub_expectReturn = True\<rparr>]"
  by (simp add: scenario_metadata_def generateMethodStubs_def methodStub_def)

lemma scenario_enum:
  "map fst (generateTypes scenario_metadata) = [''Mode'']
   \<and> (\<forall>acc \<in> set (map snd (generateTypes scenario_metadata)).
         call_accessor acc (JStr ''A'') = JNum 0 \<and> call_accessor acc (JNum 0) = JStr ''A''
       \<and> call_accessor acc (JStr ''B'') = JNum 1 \<and> call_accessor acc (JNum 1) = JStr ''B''
       \<and> read_prop acc ''A'' = JNum 0 \<and> read_prop acc ''B'' = JNum 1
       \<and> \<not> extensible acc \<and> assign_prop acc ''A'' (JNum 5) = acc)"
  by (simp add: scenario_metadata_def generateTypes_def enumAccessor_def function_expression_def
        assign_prop_def freeze_def read_prop_def call_accessor_def enum_cases_def)

lemma scenario_call:
  "invoke_stub \<lparr>stub_method = ''vray.start'', stub_formals = [], stub_nparams = 0,
       stub_expectReturn = True\<rparr> fresh_Tester [JFun (Plain ''cb'') []] =
     Normal (fresh_Tester\<lparr>rpc := rpc_call (rpc fresh_Tester)
       \<lparr>rpc_method = ''vray.start'', rpc_params = [], expectReturn = Some True,
        transport = ''http'', callback = JFun (Plain ''cb'') []\<rparr>\<rparr>)"
  by (simp add: invoke_stub_def sliced_arguments_def pop_callback_def truncate_args_def
        fresh_Tester_def)

end
